theory Spec2Isabelle
  imports Main
begin

section \<open>Game of Life: the simulation engine of \<^verbatim>\<open>src/main.py\<close>\<close>

text \<open>
  The engine of the program is two functions of \<^verbatim>\<open>main.py\<close>: \<^verbatim>\<open>update_grid\<close> (lines 198-230)
  and \<^verbatim>\<open>toggle_cell\<close> (lines 233-245). The grid they work on is built by the library, as
  \<^verbatim>\<open>np.zeros((ROWS, COLS), dtype=int)\<close> (lines 37 and 326).

  The module constants \<^verbatim>\<open>ROWS\<close>, \<^verbatim>\<open>COLS\<close> and \<^verbatim>\<open>CELL_SIZE\<close> that these functions read are
  passed to the model as leading parameters, so that the statements below speak about
  grids of any size; the values of the program are the constants \<open>ROWS\<close>, \<open>COLS\<close> and
  \<open>CELL_SIZE\<close> defined next.
\<close>

subsection \<open>Module constants\<close>

definition GRID_WIDTH :: int where
  "GRID_WIDTH = 800"

definition ROWS :: nat where
  "ROWS = 50"

definition COLS :: nat where
  "COLS = 50"

definition CELL_SIZE :: int where
  "CELL_SIZE = GRID_WIDTH div int COLS"

subsection \<open>Arrays and exceptions\<close>

text \<open>
  A two-dimensional \<^verbatim>\<open>numpy\<close> array of integers is the list of its rows. The cells are
  modelled as unbounded integers; the arrays of the program hold only 0 and 1, and the
  statements that depend on the sum of eight cells assume so, hence no machine integer
  of \<^verbatim>\<open>numpy\<close> can wrap around in them.
\<close>

type_synonym ndarray = "int list list"

datatype py_error = IndexError | ZeroDivisionError

text \<open>
  \<^verbatim>\<open>a[r, c]\<close>: an index is valid from \<open>-n\<close> up to \<open>n - 1\<close> on an axis of length \<open>n\<close>, a
  negative one counting from the end; any other index raises \<^verbatim>\<open>IndexError\<close>.
\<close>

definition axis_index :: "nat \<Rightarrow> int \<Rightarrow> py_error + nat" where
  "axis_index n i =
     (let k = (if i < 0 then i + int n else i)
      in if 0 \<le> k \<and> k < int n then Inr (nat k) else Inl IndexError)"

definition getitem :: "ndarray \<Rightarrow> int \<Rightarrow> int \<Rightarrow> py_error + int" where
  "getitem a r c =
     (case axis_index (length a) r of
        Inl e \<Rightarrow> Inl e
      | Inr r' \<Rightarrow>
          (case axis_index (length (a ! r')) c of
             Inl e \<Rightarrow> Inl e
           | Inr c' \<Rightarrow> Inr (a ! r' ! c')))"

text \<open>\<^verbatim>\<open>a[r, c] = v\<close>, returning the array after the assignment.\<close>

definition setitem :: "ndarray \<Rightarrow> int \<Rightarrow> int \<Rightarrow> int \<Rightarrow> py_error + ndarray" where
  "setitem a r c v =
     (case axis_index (length a) r of
        Inl e \<Rightarrow> Inl e
      | Inr r' \<Rightarrow>
          (case axis_index (length (a ! r')) c of
             Inl e \<Rightarrow> Inl e
           | Inr c' \<Rightarrow> Inr (a[r' := (a ! r')[c' := v]])))"

text \<open>A \<^verbatim>\<open>for\<close> loop over a list, threading the loop's state; an exception ends it.\<close>

fun for_loop :: "'a list \<Rightarrow> ('a \<Rightarrow> 's \<Rightarrow> py_error + 's) \<Rightarrow> 's \<Rightarrow> py_error + 's" where
  "for_loop [] body s = Inr s"
| "for_loop (x # xs) body s =
     (case body x s of Inl e \<Rightarrow> Inl e | Inr s' \<Rightarrow> for_loop xs body s')"

subsection \<open>\<^verbatim>\<open>update_grid\<close>\<close>

text \<open>The test of line 222 (and of line 244): the coordinate lies in the grid.\<close>

definition in_bounds :: "nat \<Rightarrow> nat \<Rightarrow> int \<Rightarrow> int \<Rightarrow> bool" where
  "in_bounds rows cols r c \<longleftrightarrow> 0 \<le> r \<and> r < int rows \<and> 0 \<le> c \<and> c < int cols"

text \<open>
  Lines 215-223, the body of the two loops over \<open>i\<close> and \<open>j\<close>: one offset \<open>(i, j)\<close> of
  the cell \<open>(row, col)\<close>, with the running count \<open>alive_neighbors\<close> as state. \<^verbatim>\<open>r %= ROWS\<close>
  raises \<^verbatim>\<open>ZeroDivisionError\<close> when the modulus is 0.
\<close>

definition neighbor_step ::
  "nat \<Rightarrow> nat \<Rightarrow> ndarray \<Rightarrow> bool \<Rightarrow> int \<Rightarrow> int \<Rightarrow> int \<Rightarrow> int \<Rightarrow> int \<Rightarrow> py_error + int" where
  "neighbor_step rows cols grid wrap row col i j alive_neighbors =
     (if i = 0 \<and> j = 0 then Inr alive_neighbors
      else
        let r = row + i; c = col + j in
        if wrap then
          (if rows = 0 \<or> cols = 0 then Inl ZeroDivisionError
           else
             let r = r mod int rows; c = c mod int cols in
             (case getitem grid r c of
                Inl e \<Rightarrow> Inl e
              | Inr v \<Rightarrow> Inr (alive_neighbors + v)))
        else if in_bounds rows cols r c then
          (case getitem grid r c of
             Inl e \<Rightarrow> Inl e
           | Inr v \<Rightarrow> Inr (alive_neighbors + v))
        else Inr alive_neighbors)"

text \<open>Lines 212-223: the count of the alive neighbours of \<open>(row, col)\<close> in \<open>grid\<close>.\<close>

definition alive_neighbors ::
  "nat \<Rightarrow> nat \<Rightarrow> ndarray \<Rightarrow> bool \<Rightarrow> int \<Rightarrow> int \<Rightarrow> py_error + int" where
  "alive_neighbors rows cols grid wrap row col =
     for_loop [-1, 0, 1]
       (\<lambda>i. for_loop [-1, 0, 1] (neighbor_step rows cols grid wrap row col i)) 0"

text \<open>
  Lines 226-229, the rules of the game: they read the cell in \<open>grid\<close> and write it in
  \<open>new_grid\<close>, which is the state.
\<close>

definition game_rules :: "ndarray \<Rightarrow> int \<Rightarrow> int \<Rightarrow> int \<Rightarrow> ndarray \<Rightarrow> py_error + ndarray" where
  "game_rules grid row col n new_grid =
     (case getitem grid row col of
        Inl e \<Rightarrow> Inl e
      | Inr v \<Rightarrow>
          if v = 1 \<and> (n < 2 \<or> n > 3) then setitem new_grid row col 0
          else if v = 0 \<and> n = 3 then setitem new_grid row col 1
          else Inr new_grid)"

text \<open>Lines 212-229, the body of the loops over \<open>row\<close> and \<open>col\<close>.\<close>

definition update_cell ::
  "nat \<Rightarrow> nat \<Rightarrow> ndarray \<Rightarrow> bool \<Rightarrow> int \<Rightarrow> int \<Rightarrow> ndarray \<Rightarrow> py_error + ndarray" where
  "update_cell rows cols grid wrap row col new_grid =
     (case alive_neighbors rows cols grid wrap row col of
        Inl e \<Rightarrow> Inl e
      | Inr n \<Rightarrow> game_rules grid row col n new_grid)"

text \<open>
  \<^verbatim>\<open>update_grid(grid, wrap)\<close>. \<^verbatim>\<open>np.copy(grid)\<close> is a fresh array with the cells of \<open>grid\<close>:
  the loops write \<open>new_grid\<close> only and read \<open>grid\<close> only, and \<open>grid\<close> is left as it was.
\<close>

definition update_grid :: "nat \<Rightarrow> nat \<Rightarrow> ndarray \<Rightarrow> bool \<Rightarrow> py_error + ndarray" where
  "update_grid rows cols grid wrap =
     (let new_grid = grid in
      for_loop (map int [0..<rows])
        (\<lambda>row. for_loop (map int [0..<cols]) (update_cell rows cols grid wrap row))
        new_grid)"

subsection \<open>\<^verbatim>\<open>update_grid\<close> on arrays that are objects\<close>

text \<open>
  In the program an array is an object, reached through a reference and changed in
  place. A store is the list of the arrays that exist, and a reference is the position
  of an array in it. \<^verbatim>\<open>np.copy(grid)\<close> adds a new array with the cells of \<open>grid\<close> to the
  store and returns the reference to it.
\<close>

type_synonym store = "ndarray list"

definition np_copy :: "store \<Rightarrow> nat \<Rightarrow> store \<times> nat" where
  "np_copy s a = (s @ [s ! a], length s)"

text \<open>
  Lines 212-229 with the two arrays given by reference: every read of line 221, 223,
  226 and 228 is a read of the array \<open>grid\<close> as the store has it when the body starts
  (nothing is written before them in the body), and the write of line 227 or 229
  changes the array \<open>new_grid\<close> of the store. Were the two references the same array,
  the reads of a later cell would see the writes of an earlier one.
\<close>

definition update_cell_at ::
  "nat \<Rightarrow> nat \<Rightarrow> nat \<Rightarrow> nat \<Rightarrow> bool \<Rightarrow> int \<Rightarrow> int \<Rightarrow> store \<Rightarrow> py_error + store" where
  "update_cell_at rows cols grid new_grid wrap row col s =
     (case update_cell rows cols (s ! grid) wrap row col (s ! new_grid) of
        Inl e \<Rightarrow> Inl e
      | Inr a \<Rightarrow> Inr (s[new_grid := a]))"

text \<open>
  \<^verbatim>\<open>update_grid(grid, wrap)\<close> called in the store \<open>s\<close> with the reference \<open>grid\<close>: it
  returns the store after the call and the reference that the function returns.
\<close>

definition update_grid_at ::
  "nat \<Rightarrow> nat \<Rightarrow> store \<Rightarrow> nat \<Rightarrow> bool \<Rightarrow> py_error + store \<times> nat" where
  "update_grid_at rows cols s grid wrap =
     (let (s0, new_grid) = np_copy s grid in
      case for_loop (map int [0..<rows])
             (\<lambda>row. for_loop (map int [0..<cols])
                (update_cell_at rows cols grid new_grid wrap row)) s0 of
        Inl e \<Rightarrow> Inl e
      | Inr s' \<Rightarrow> Inr (s', new_grid))"

subsection \<open>\<^verbatim>\<open>toggle_cell\<close>\<close>

text \<open>
  \<^verbatim>\<open>toggle_cell(grid, pos, draw_mode)\<close>, with \<open>pos = (x, y)\<close> the position of the cursor in
  pixels. The function changes \<open>grid\<close> in place and returns nothing: the model returns
  the grid after the call. The floor division \<^verbatim>\<open>//\<close> is \<open>div\<close> on \<open>int\<close>, and raises
  \<^verbatim>\<open>ZeroDivisionError\<close> on a cell size of 0.
\<close>

definition toggle_cell ::
  "nat \<Rightarrow> nat \<Rightarrow> int \<Rightarrow> ndarray \<Rightarrow> int \<times> int \<Rightarrow> bool \<Rightarrow> py_error + ndarray" where
  "toggle_cell rows cols cell_size grid pos draw_mode =
     (if cell_size = 0 then Inl ZeroDivisionError
      else
        let col = fst pos div cell_size;
            row = snd pos div cell_size
        in if in_bounds rows cols row col
           then setitem grid row col (if draw_mode then 1 else 0)
           else Inr grid)"

subsection \<open>Well-formed grids\<close>

definition shape_ok :: "nat \<Rightarrow> nat \<Rightarrow> ndarray \<Rightarrow> bool" where
  "shape_ok rows cols grid \<longleftrightarrow> length grid = rows \<and> list_all (\<lambda>xs. length xs = cols) grid"

definition binary :: "ndarray \<Rightarrow> bool" where
  "binary grid \<longleftrightarrow> list_all (list_all (\<lambda>v. v = 0 \<or> v = 1)) grid"

definition grid_ok :: "nat \<Rightarrow> nat \<Rightarrow> ndarray \<Rightarrow> bool" where
  "grid_ok rows cols grid \<longleftrightarrow> shape_ok rows cols grid \<and> binary grid"

subsection \<open>The specification's view of the engine\<close>

text \<open>
  The definitions of this subsection are not taken from the source: they say, in the
  words of the specification, what the source is compared with.

  The eight offsets of the Moore neighbourhood, the cell itself excluded.
\<close>

definition moore :: "(int \<times> int) list" where
  "moore = [(-1, -1), (-1, 0), (-1, 1), (0, -1), (0, 1), (1, -1), (1, 0), (1, 1)]"

text \<open>Wrapped: each neighbour coordinate is taken modulo \<open>rows\<close> and \<open>cols\<close>.\<close>

definition wrapped_neighbors :: "nat \<Rightarrow> nat \<Rightarrow> int \<Rightarrow> int \<Rightarrow> (int \<times> int) list" where
  "wrapped_neighbors rows cols row col =
     map (\<lambda>(i, j). ((row + i) mod int rows, (col + j) mod int cols)) moore"

text \<open>Bounded: the neighbour coordinates outside the grid are left out.\<close>

definition bounded_neighbors :: "nat \<Rightarrow> nat \<Rightarrow> int \<Rightarrow> int \<Rightarrow> (int \<times> int) list" where
  "bounded_neighbors rows cols row col =
     filter (\<lambda>(r, c). in_bounds rows cols r c) (map (\<lambda>(i, j). (row + i, col + j)) moore)"

text \<open>\<open>CountAliveNeighbors\<close> of the specification: the sum of the cells at the neighbours.\<close>

definition count_alive_neighbors :: "nat \<Rightarrow> nat \<Rightarrow> ndarray \<Rightarrow> bool \<Rightarrow> int \<Rightarrow> int \<Rightarrow> int" where
  "count_alive_neighbors rows cols grid wrap row col =
     (\<Sum>(r, c)\<leftarrow>(if wrap then wrapped_neighbors rows cols row col
                   else bounded_neighbors rows cols row col). grid ! nat r ! nat c)"

text \<open>The same count, offset by offset: what the offset \<open>(i, j)\<close> adds to it.\<close>

definition neighbor_value ::
  "nat \<Rightarrow> nat \<Rightarrow> ndarray \<Rightarrow> bool \<Rightarrow> int \<Rightarrow> int \<Rightarrow> int \<Rightarrow> int \<Rightarrow> int" where
  "neighbor_value rows cols grid wrap row col i j =
     (if wrap then grid ! nat ((row + i) mod int rows) ! nat ((col + j) mod int cols)
      else if in_bounds rows cols (row + i) (col + j) then grid ! nat (row + i) ! nat (col + j)
      else 0)"

text \<open>
  The rule of the game on a cell of state \<open>v\<close> with \<open>n\<close> alive neighbours. \<open>written_value\<close>
  is the content of the cell of \<open>new_grid\<close> after lines 226-229, \<open>old\<close> being its content
  before them; \<open>next_state\<close> is the case where the cell still held the state \<open>v\<close>.
\<close>

definition written_value :: "int \<Rightarrow> int \<Rightarrow> int \<Rightarrow> int" where
  "written_value v n old =
     (if v = 1 \<and> (n < 2 \<or> n > 3) then 0 else if v = 0 \<and> n = 3 then 1 else old)"

definition next_state :: "int \<Rightarrow> int \<Rightarrow> int" where
  "next_state v n = written_value v n v"

text \<open>The grid of the given size whose alive cells are exactly the listed ones.\<close>

definition pattern :: "nat \<Rightarrow> nat \<Rightarrow> (nat \<times> nat) list \<Rightarrow> ndarray" where
  "pattern rows cols alive =
     map (\<lambda>r. map (\<lambda>c. if (r, c) \<in> set alive then 1 else 0) [0..<cols]) [0..<rows]"

section \<open>Properties\<close>

subsection \<open>Indexing inside the grid\<close>

lemma shape_ok_iff:
  "shape_ok rows cols g \<longleftrightarrow> length g = rows \<and> (\<forall>r<rows. length (g ! r) = cols)"
  by (auto simp: shape_ok_def list_all_length)

lemma binary_iff:
  "binary g \<longleftrightarrow> (\<forall>r<length g. \<forall>c<length (g ! r). g ! r ! c = 0 \<or> g ! r ! c = 1)"
  by (simp add: binary_def list_all_length)

lemma axis_index_nat: "k < n \<Longrightarrow> axis_index n (int k) = Inr k"
  by (simp add: axis_index_def)

lemma getitem_nat:
  "r < length a \<Longrightarrow> c < length (a ! r) \<Longrightarrow> getitem a (int r) (int c) = Inr (a ! r ! c)"
  by (simp add: getitem_def axis_index_nat)

lemma setitem_nat:
  "r < length a \<Longrightarrow> c < length (a ! r) \<Longrightarrow>
   setitem a (int r) (int c) v = Inr (a[r := (a ! r)[c := v]])"
  by (simp add: setitem_def axis_index_nat)

lemma getitem_in_bounds:
  assumes "shape_ok rows cols g" "in_bounds rows cols r c"
  shows "getitem g r c = Inr (g ! nat r ! nat c)"
proof -
  from assms(2) have r: "nat r < rows" "int (nat r) = r" and c: "nat c < cols" "int (nat c) = c"
    by (auto simp: in_bounds_def)
  with assms(1) have "nat r < length g" "nat c < length (g ! nat r)"
    by (auto simp: shape_ok_iff)
  from getitem_nat[OF this] r c show ?thesis by simp
qed

lemma setitem_in_bounds:
  assumes "shape_ok rows cols g" "in_bounds rows cols r c"
  shows "setitem g r c v = Inr (g[nat r := (g ! nat r)[nat c := v]])"
proof -
  from assms(2) have r: "nat r < rows" "int (nat r) = r" and c: "nat c < cols" "int (nat c) = c"
    by (auto simp: in_bounds_def)
  with assms(1) have "nat r < length g" "nat c < length (g ! nat r)"
    by (auto simp: shape_ok_iff)
  from setitem_nat[OF this, of v] r c show ?thesis by simp
qed

lemma in_bounds_mod:
  "0 < rows \<Longrightarrow> 0 < cols \<Longrightarrow> in_bounds rows cols (r mod int rows) (c mod int cols)"
  by (simp add: in_bounds_def)

lemma shape_ok_update:
  "shape_ok rows cols ng \<Longrightarrow> shape_ok rows cols (ng[r := (ng ! r)[c := v]])"
  by (cases "r < length ng") (auto simp: shape_ok_iff nth_list_update)

lemma nth_nth_update:
  assumes "shape_ok rows cols ng" "r < rows" "c < cols" "r' < rows" "c' < cols"
  shows "ng[r := (ng ! r)[c := v]] ! r' ! c' = (if r' = r \<and> c' = c then v else ng ! r' ! c')"
  using assms by (auto simp: shape_ok_iff nth_list_update)

subsection \<open>The count of the source is the count of the specification\<close>

lemma count_alive_neighbors_offsets:
  "count_alive_neighbors rows cols g wrap row col =
     (\<Sum>(i, j)\<leftarrow>moore. neighbor_value rows cols g wrap row col i j)"
proof (cases wrap)
  case True
  then show ?thesis
    by (simp add: count_alive_neighbors_def wrapped_neighbors_def neighbor_value_def
        comp_def case_prod_unfold)
next
  case False
  then show ?thesis
    by (simp add: count_alive_neighbors_def bounded_neighbors_def neighbor_value_def
        sum_list_map_filter' comp_def case_prod_unfold cong: if_cong)
qed

lemma neighbor_step_eq:
  assumes "shape_ok rows cols g" "wrap \<longrightarrow> 0 < rows \<and> 0 < cols"
  shows "neighbor_step rows cols g wrap row col i j acc =
         Inr (acc + (if i = 0 \<and> j = 0 then 0 else neighbor_value rows cols g wrap row col i j))"
proof (cases wrap)
  case True
  with assms(2) have "in_bounds rows cols ((row + i) mod int rows) ((col + j) mod int cols)"
    by (simp add: in_bounds_mod)
  from getitem_in_bounds[OF assms(1) this] True assms(2) show ?thesis
    by (simp add: neighbor_step_def neighbor_value_def)
next
  case False
  show ?thesis
  proof (cases "in_bounds rows cols (row + i) (col + j)")
    case True
    from getitem_in_bounds[OF assms(1) this] True \<open>\<not> wrap\<close> show ?thesis
      by (simp add: neighbor_step_def neighbor_value_def)
  next
    case False
    with \<open>\<not> wrap\<close> show ?thesis
      by (simp add: neighbor_step_def neighbor_value_def)
  qed
qed

lemma alive_neighbors_eq:
  assumes "shape_ok rows cols g" "wrap \<longrightarrow> 0 < rows \<and> 0 < cols"
  shows "alive_neighbors rows cols g wrap row col =
         Inr (count_alive_neighbors rows cols g wrap row col)"
  by (simp add: alive_neighbors_def neighbor_step_eq[OF assms] count_alive_neighbors_offsets
      moore_def)

subsection \<open>The loops of \<^verbatim>\<open>update_grid\<close>\<close>

lemma written_value_idem: "written_value v n (written_value v n old) = written_value v n old"
  by (auto simp: written_value_def)

lemma update_cell_eq:
  assumes g: "shape_ok rows cols g" and ng: "shape_ok rows cols ng"
    and r: "r < rows" and c: "c < cols"
  shows "update_cell rows cols g wrap (int r) (int c) ng =
         Inr (ng[r := (ng ! r)[c := written_value (g ! r ! c)
               (count_alive_neighbors rows cols g wrap (int r) (int c)) (ng ! r ! c)]])"
proof -
  from r c have ib: "in_bounds rows cols (int r) (int c)" and pos: "wrap \<longrightarrow> 0 < rows \<and> 0 < cols"
    by (auto simp: in_bounds_def)
  have same: "ng[r := (ng ! r)[c := ng ! r ! c]] = ng"
    by simp
  show ?thesis
    using same
    by (auto simp: update_cell_def alive_neighbors_eq[OF g pos] game_rules_def
        getitem_in_bounds[OF g ib] setitem_in_bounds[OF ng ib] written_value_def)
qed

text \<open>
  The loop over the columns of the row \<open>r\<close>, from any state \<open>ng\<close> of \<open>new_grid\<close>: it
  returns, and it has written the cells of that row at the columns it went through.
\<close>

lemma row_loop:
  assumes g: "shape_ok rows cols g" and r: "r < rows"
  shows "shape_ok rows cols ng \<Longrightarrow> \<forall>x\<in>set xs. x < cols \<Longrightarrow>
    \<exists>ng'. for_loop (map int xs) (update_cell rows cols g wrap (int r)) ng = Inr ng' \<and>
       shape_ok rows cols ng' \<and>
       (\<forall>r'<rows. \<forall>c'<cols. ng' ! r' ! c' =
          (if r' = r \<and> c' \<in> set xs
           then written_value (g ! r ! c')
                  (count_alive_neighbors rows cols g wrap (int r) (int c')) (ng ! r' ! c')
           else ng ! r' ! c'))"
proof (induction xs arbitrary: ng)
  case Nil
  then show ?case by simp
next
  case (Cons x xs)
  let ?v = "written_value (g ! r ! x)
              (count_alive_neighbors rows cols g wrap (int r) (int x)) (ng ! r ! x)"
  let ?ng1 = "ng[r := (ng ! r)[x := ?v]]"
  from Cons.prems have x: "x < cols" and xs: "\<forall>x\<in>set xs. x < cols" by auto
  have step: "update_cell rows cols g wrap (int r) (int x) ng = Inr ?ng1"
    by (rule update_cell_eq[OF g Cons.prems(1) r x])
  have ok1: "shape_ok rows cols ?ng1"
    by (rule shape_ok_update[OF Cons.prems(1)])
  from Cons.IH[OF ok1 xs] obtain ng' where
    run: "for_loop (map int xs) (update_cell rows cols g wrap (int r)) ?ng1 = Inr ng'"
    and ok': "shape_ok rows cols ng'"
    and cells: "\<forall>r'<rows. \<forall>c'<cols. ng' ! r' ! c' =
          (if r' = r \<and> c' \<in> set xs
           then written_value (g ! r ! c')
                  (count_alive_neighbors rows cols g wrap (int r) (int c')) (?ng1 ! r' ! c')
           else ?ng1 ! r' ! c')"
    by blast
  have "\<forall>r'<rows. \<forall>c'<cols. ng' ! r' ! c' =
          (if r' = r \<and> c' \<in> set (x # xs)
           then written_value (g ! r ! c')
                  (count_alive_neighbors rows cols g wrap (int r) (int c')) (ng ! r' ! c')
           else ng ! r' ! c')"
  proof (intro allI impI)
    fix r' c' assume r': "r' < rows" and c': "c' < cols"
    show "ng' ! r' ! c' =
          (if r' = r \<and> c' \<in> set (x # xs)
           then written_value (g ! r ! c')
                  (count_alive_neighbors rows cols g wrap (int r) (int c')) (ng ! r' ! c')
           else ng ! r' ! c')"
      using cells r' c' nth_nth_update[OF Cons.prems(1) r x r' c', of ?v]
      by (auto simp: written_value_idem)
  qed
  with step run ok' show ?case by simp
qed

text \<open>The loop over the rows, likewise.\<close>

lemma grid_loop:
  assumes g: "shape_ok rows cols g"
  shows "shape_ok rows cols ng \<Longrightarrow> \<forall>x\<in>set xs. x < rows \<Longrightarrow>
    \<exists>ng'. for_loop (map int xs)
             (\<lambda>row. for_loop (map int [0..<cols]) (update_cell rows cols g wrap row)) ng = Inr ng' \<and>
       shape_ok rows cols ng' \<and>
       (\<forall>r'<rows. \<forall>c'<cols. ng' ! r' ! c' =
          (if r' \<in> set xs
           then written_value (g ! r' ! c')
                  (count_alive_neighbors rows cols g wrap (int r') (int c')) (ng ! r' ! c')
           else ng ! r' ! c'))"
proof (induction xs arbitrary: ng)
  case Nil
  then show ?case by simp
next
  case (Cons x xs)
  from Cons.prems have x: "x < rows" and xs: "\<forall>x\<in>set xs. x < rows" by auto
  have cols: "\<forall>c\<in>set [0..<cols]. c < cols" by simp
  from row_loop[OF g x Cons.prems(1) cols, of wrap] obtain ng1 where
    step: "for_loop (map int [0..<cols]) (update_cell rows cols g wrap (int x)) ng = Inr ng1"
    and ok1: "shape_ok rows cols ng1"
    and cells1: "\<forall>r'<rows. \<forall>c'<cols. ng1 ! r' ! c' =
          (if r' = x \<and> c' \<in> set [0..<cols]
           then written_value (g ! x ! c')
                  (count_alive_neighbors rows cols g wrap (int x) (int c')) (ng ! r' ! c')
           else ng ! r' ! c')"
    by blast
  from Cons.IH[OF ok1 xs] obtain ng' where
    run: "for_loop (map int xs)
             (\<lambda>row. for_loop (map int [0..<cols]) (update_cell rows cols g wrap row)) ng1 = Inr ng'"
    and ok': "shape_ok rows cols ng'"
    and cells: "\<forall>r'<rows. \<forall>c'<cols. ng' ! r' ! c' =
          (if r' \<in> set xs
           then written_value (g ! r' ! c')
                  (count_alive_neighbors rows cols g wrap (int r') (int c')) (ng1 ! r' ! c')
           else ng1 ! r' ! c')"
    by blast
  have "\<forall>r'<rows. \<forall>c'<cols. ng' ! r' ! c' =
          (if r' \<in> set (x # xs)
           then written_value (g ! r' ! c')
                  (count_alive_neighbors rows cols g wrap (int r') (int c')) (ng ! r' ! c')
           else ng ! r' ! c')"
  proof (intro allI impI)
    fix r' c' assume r': "r' < rows" and c': "c' < cols"
    show "ng' ! r' ! c' =
          (if r' \<in> set (x # xs)
           then written_value (g ! r' ! c')
                  (count_alive_neighbors rows cols g wrap (int r') (int c')) (ng ! r' ! c')
           else ng ! r' ! c')"
      using cells cells1 r' c' by (auto simp: written_value_idem)
  qed
  with step run ok' show ?case by simp
qed

text \<open>
  Hence \<^verbatim>\<open>update_grid\<close> returns on a grid of the right shape, and each cell of its result
  is the rule applied to that cell and its neighbours in the grid it was given.
\<close>

lemma update_grid_cells:
  assumes g: "shape_ok rows cols g"
  shows "\<exists>g'. update_grid rows cols g wrap = Inr g' \<and> shape_ok rows cols g' \<and>
     (\<forall>r<rows. \<forall>c<cols. g' ! r ! c =
        next_state (g ! r ! c) (count_alive_neighbors rows cols g wrap (int r) (int c)))"
proof -
  have rows: "\<forall>r\<in>set [0..<rows]. r < rows" by simp
  from grid_loop[OF g g rows, of wrap] show ?thesis
    by (simp add: update_grid_def next_state_def)
qed

lemma next_state_binary: "v = 0 \<or> v = 1 \<Longrightarrow> next_state v n = 0 \<or> next_state v n = 1"
  by (auto simp: next_state_def written_value_def)

lemma update_grid_grid_ok:
  assumes "grid_ok rows cols g"
  shows "\<exists>g'. update_grid rows cols g wrap = Inr g' \<and> grid_ok rows cols g'"
proof -
  from assms have g: "shape_ok rows cols g" and b: "binary g"
    by (simp_all add: grid_ok_def)
  from update_grid_cells[OF g, of wrap] obtain g' where
    run: "update_grid rows cols g wrap = Inr g'" and ok: "shape_ok rows cols g'"
    and cells: "\<forall>r<rows. \<forall>c<cols. g' ! r ! c =
        next_state (g ! r ! c) (count_alive_neighbors rows cols g wrap (int r) (int c))"
    by blast
  have "binary g'"
    unfolding binary_iff
  proof (intro allI impI)
    fix r c assume "r < length g'" "c < length (g' ! r)"
    with ok have r: "r < rows" and c: "c < cols" by (auto simp: shape_ok_iff)
    with g b have "g ! r ! c = 0 \<or> g ! r ! c = 1" by (auto simp: shape_ok_iff binary_iff)
    from next_state_binary[OF this] cells r c show "g' ! r ! c = 0 \<or> g' ! r ! c = 1"
      by simp
  qed
  with run ok show ?thesis by (auto simp: grid_ok_def)
qed

subsection \<open>\<^verbatim>\<open>toggle_cell\<close> inside the grid\<close>

lemma toggle_cell_in_bounds:
  assumes "shape_ok rows cols g" "cell_size \<noteq> 0"
    and "in_bounds rows cols (y div cell_size) (x div cell_size)"
  shows "toggle_cell rows cols cell_size g (x, y) draw_mode =
     Inr (g[nat (y div cell_size) := (g ! nat (y div cell_size))
             [nat (x div cell_size) := (if draw_mode then 1 else 0)]])"
  using assms(2,3) setitem_in_bounds[OF assms(1,3)] by (simp add: toggle_cell_def Let_def)

lemma toggle_cell_grid_ok:
  assumes "grid_ok rows cols g" "cell_size \<noteq> 0"
  shows "\<exists>g'. toggle_cell rows cols cell_size g pos draw_mode = Inr g' \<and> grid_ok rows cols g'"
proof (cases "in_bounds rows cols (snd pos div cell_size) (fst pos div cell_size)")
  case False
  with assms show ?thesis by (simp add: toggle_cell_def Let_def)
next
  case True
  let ?r = "nat (snd pos div cell_size)" and ?c = "nat (fst pos div cell_size)"
  let ?v = "if draw_mode then 1 else 0 :: int"
  let ?g' = "g[?r := (g ! ?r)[?c := ?v]]"
  from assms(1) have g: "shape_ok rows cols g" and b: "binary g"
    by (simp_all add: grid_ok_def)
  from True have r: "?r < rows" and c: "?c < cols"
    by (auto simp: in_bounds_def)
  have run: "toggle_cell rows cols cell_size g pos draw_mode = Inr ?g'"
    using toggle_cell_in_bounds[OF g assms(2), of "snd pos" "fst pos" draw_mode] True
    by simp
  have ok: "shape_ok rows cols ?g'"
    by (rule shape_ok_update[OF g])
  have "binary ?g'"
    unfolding binary_iff
  proof (intro allI impI)
    fix r' c' assume "r' < length ?g'" "c' < length (?g' ! r')"
    with ok have r': "r' < rows" and c': "c' < cols" by (auto simp: shape_ok_iff)
    with g b have "g ! r' ! c' = 0 \<or> g ! r' ! c' = 1" by (auto simp: shape_ok_iff binary_iff)
    with nth_nth_update[OF g r c r' c', of ?v] show "?g' ! r' ! c' = 0 \<or> ?g' ! r' ! c' = 1"
      by auto
  qed
  with run ok show ?thesis by (simp add: grid_ok_def)
qed

subsection \<open>Grids given by their alive cells\<close>

lemma shape_ok_pattern: "shape_ok rows cols (pattern rows cols S)"
  by (simp add: shape_ok_iff pattern_def)

lemma pattern_nth:
  "r < rows \<Longrightarrow> c < cols \<Longrightarrow> pattern rows cols S ! r ! c = (if (r, c) \<in> set S then 1 else 0)"
  by (simp add: pattern_def)

lemma neighbor_value_pattern:
  assumes "\<forall>(a, b)\<in>set S. a < rows \<and> b < cols"
  shows "neighbor_value rows cols (pattern rows cols S) False row col i j =
     (if (row + i, col + j) \<in> (\<lambda>(a, b). (int a, int b)) ` set S then 1 else 0)"
proof (cases "in_bounds rows cols (row + i) (col + j)")
  case True
  then have "nat (row + i) < rows" "nat (col + j) < cols"
    and rt: "int (nat (row + i)) = row + i" "int (nat (col + j)) = col + j"
    by (auto simp: in_bounds_def)
  then have "pattern rows cols S ! nat (row + i) ! nat (col + j) =
     (if (nat (row + i), nat (col + j)) \<in> set S then 1 else 0)"
    by (simp add: pattern_nth)
  moreover have "(nat (row + i), nat (col + j)) \<in> set S \<longleftrightarrow>
      (row + i, col + j) \<in> (\<lambda>(a, b). (int a, int b)) ` set S"
  proof
    assume "(nat (row + i), nat (col + j)) \<in> set S"
    then have "(\<lambda>(a, b). (int a, int b)) (nat (row + i), nat (col + j))
        \<in> (\<lambda>(a, b). (int a, int b)) ` set S"
      by (rule imageI)
    with rt show "(row + i, col + j) \<in> (\<lambda>(a, b). (int a, int b)) ` set S" by simp
  next
    assume "(row + i, col + j) \<in> (\<lambda>(a, b). (int a, int b)) ` set S"
    then obtain a b where "(a, b) \<in> set S" "row + i = int a" "col + j = int b" by auto
    then show "(nat (row + i), nat (col + j)) \<in> set S" by simp
  qed
  ultimately show ?thesis using True by (simp add: neighbor_value_def)
next
  case False
  have "(row + i, col + j) \<notin> (\<lambda>(a, b). (int a, int b)) ` set S"
  proof
    assume "(row + i, col + j) \<in> (\<lambda>(a, b). (int a, int b)) ` set S"
    then obtain a b where ab: "(a, b) \<in> set S" "row + i = int a" "col + j = int b" by auto
    with assms have "a < rows" "b < cols" by auto
    with ab False show False by (simp add: in_bounds_def)
  qed
  with False show ?thesis by (simp add: neighbor_value_def)
qed

lemmas blinker_simps =
  pattern_nth count_alive_neighbors_offsets moore_def neighbor_value_pattern
  next_state_def written_value_def

lemma blinker_horizontal_cells:
  assumes "5 \<le> rows" "5 \<le> cols" "r < rows" "c < cols"
  shows "next_state (pattern rows cols [(2, 1), (2, 2), (2, 3)] ! r ! c)
           (count_alive_neighbors rows cols (pattern rows cols [(2, 1), (2, 2), (2, 3)])
              False (int r) (int c))
         = pattern rows cols [(1, 2), (2, 2), (3, 2)] ! r ! c"
proof -
  consider "r = 0" | "r = 1" | "r = 2" | "r = 3" | "4 \<le> r" by linarith
  moreover
  consider "c = 0" | "c = 1" | "c = 2" | "c = 3" | "c = 4" | "5 \<le> c" by linarith
  ultimately show ?thesis using assms
    by cases (simp_all add: blinker_simps)
qed

lemma blinker_vertical_cells:
  assumes "5 \<le> rows" "5 \<le> cols" "r < rows" "c < cols"
  shows "next_state (pattern rows cols [(1, 2), (2, 2), (3, 2)] ! r ! c)
           (count_alive_neighbors rows cols (pattern rows cols [(1, 2), (2, 2), (3, 2)])
              False (int r) (int c))
         = pattern rows cols [(2, 1), (2, 2), (2, 3)] ! r ! c"
proof -
  consider "c = 0" | "c = 1" | "c = 2" | "c = 3" | "4 \<le> c" by linarith
  moreover
  consider "r = 0" | "r = 1" | "r = 2" | "r = 3" | "r = 4" | "5 \<le> r" by linarith
  ultimately show ?thesis using assms
    by cases (simp_all add: blinker_simps)
qed

lemma update_grid_pattern:
  assumes "\<And>r c. r < rows \<Longrightarrow> c < cols \<Longrightarrow>
      next_state (pattern rows cols S ! r ! c)
        (count_alive_neighbors rows cols (pattern rows cols S) wrap (int r) (int c))
      = pattern rows cols T ! r ! c"
  shows "update_grid rows cols (pattern rows cols S) wrap = Inr (pattern rows cols T)"
proof -
  from update_grid_cells[OF shape_ok_pattern, of rows cols S wrap] obtain g' where
    run: "update_grid rows cols (pattern rows cols S) wrap = Inr g'"
    and ok: "shape_ok rows cols g'"
    and cells: "\<forall>r<rows. \<forall>c<cols. g' ! r ! c =
        next_state (pattern rows cols S ! r ! c)
          (count_alive_neighbors rows cols (pattern rows cols S) wrap (int r) (int c))"
    by blast
  have "g' = pattern rows cols T"
  proof (rule nth_equalityI)
    show "length g' = length (pattern rows cols T)"
      using ok by (simp add: shape_ok_iff pattern_def)
  next
    fix r assume "r < length g'"
    with ok have r: "r < rows" by (simp add: shape_ok_iff)
    show "g' ! r = pattern rows cols T ! r"
    proof (rule nth_equalityI)
      show "length (g' ! r) = length (pattern rows cols T ! r)"
        using ok r by (simp add: shape_ok_iff pattern_def)
    next
      fix c assume "c < length (g' ! r)"
      with ok r have c: "c < cols" by (simp add: shape_ok_iff)
      from cells r c assms[OF r c] show "g' ! r ! c = pattern rows cols T ! r ! c"
        by simp
    qed
  qed
  with run show ?thesis by simp
qed

subsection \<open>\<^verbatim>\<open>update_grid\<close> in a store\<close>

text \<open>A loop on a state that is carried inside a larger one runs as the loop on the state itself.\<close>

lemma for_loop_lift:
  assumes "\<And>x s. body' x (f s) = (case body x s of Inl e \<Rightarrow> Inl e | Inr s' \<Rightarrow> Inr (f s'))"
  shows "for_loop xs body' (f s) =
         (case for_loop xs body s of Inl e \<Rightarrow> Inl e | Inr s' \<Rightarrow> Inr (f s'))"
proof (induction xs arbitrary: s)
  case Nil
  show ?case by simp
next
  case (Cons x xs)
  show ?case
  proof (cases "body x s")
    case (Inl e)
    with assms[of x s] show ?thesis by simp
  next
    case (Inr s')
    with assms[of x s] Cons.IH[of s'] show ?thesis by simp
  qed
qed

lemma update_cell_at_fresh:
  assumes "grid < length s"
  shows "update_cell_at rows cols grid (length s) wrap row col (s @ [ng]) =
         (case update_cell rows cols (s ! grid) wrap row col ng of
            Inl e \<Rightarrow> Inl e
          | Inr a \<Rightarrow> Inr (s @ [a]))"
  using assms by (simp add: update_cell_at_def nth_append list_update_append split: sum.splits)

text \<open>
  The call changes no array that exists, and the array it adds to the store is the
  result of \<open>update_grid\<close> on the content of its argument.
\<close>

lemma update_grid_at_eq:
  assumes "grid < length s"
  shows "update_grid_at rows cols s grid wrap =
         (case update_grid rows cols (s ! grid) wrap of
            Inl e \<Rightarrow> Inl e
          | Inr result \<Rightarrow> Inr (s @ [result], length s))"
proof -
  have row: "for_loop (map int [0..<cols])
               (update_cell_at rows cols grid (length s) wrap row) (s @ [ng]) =
             (case for_loop (map int [0..<cols])
                     (update_cell rows cols (s ! grid) wrap row) ng of
                Inl e \<Rightarrow> Inl e
              | Inr ng' \<Rightarrow> Inr (s @ [ng']))" for row ng
    by (rule for_loop_lift[where f = "\<lambda>ng. s @ [ng]"]) (rule update_cell_at_fresh[OF assms])
  have all: "for_loop (map int [0..<rows])
               (\<lambda>row. for_loop (map int [0..<cols])
                  (update_cell_at rows cols grid (length s) wrap row)) (s @ [ng]) =
             (case for_loop (map int [0..<rows])
                     (\<lambda>row. for_loop (map int [0..<cols])
                        (update_cell rows cols (s ! grid) wrap row)) ng of
                Inl e \<Rightarrow> Inl e
              | Inr ng' \<Rightarrow> Inr (s @ [ng']))" for ng
    by (rule for_loop_lift[where f = "\<lambda>ng. s @ [ng]"]) (rule row)
  show ?thesis
    by (simp add: update_grid_at_def np_copy_def update_grid_def all split: sum.splits)
qed

text \<open>
  The copy matters: the same loops run with \<open>new_grid\<close> and \<open>grid\<close> the same array
  turn the vertical triple of a 3 by 3 grid into the empty grid, where \<open>update_grid\<close>
  gives the horizontal triple.
\<close>

lemma in_place_update_differs:
  "for_loop (map int [0..<3])
     (\<lambda>row. for_loop (map int [0..<3]) (update_cell_at 3 3 0 0 False row))
     [[[0, 1, 0], [0, 1, 0], [0, 1, 0]]] = Inr [[[0, 0, 0], [0, 0, 0], [0, 0, 0]]]"
  by code_simp

section \<open>The claims\<close>

text \<open>
  C1. On every grid, \<^verbatim>\<open>update_grid\<close> returns a grid of the same size in which each cell is
  computed from the grid it was given only: with \<open>n\<close> the count of the alive neighbours
  of the cell in the old grid, an alive cell with \<open>n < 2\<close> or \<open>n > 3\<close> is dead, an alive
  cell with \<open>n = 2\<close> or \<open>n = 3\<close> is alive, a dead cell with \<open>n = 3\<close> is alive, and a dead
  cell with any other \<open>n\<close> is dead.
\<close>

theorem update_grid_standard_rule:
  assumes "grid_ok rows cols grid"
  shows "\<exists>new_grid. update_grid rows cols grid wrap = Inr new_grid \<and>
     shape_ok rows cols new_grid \<and>
     (\<forall>r<rows. \<forall>c<cols. \<exists>n.
        alive_neighbors rows cols grid wrap (int r) (int c) = Inr n \<and>
        (grid ! r ! c = 1 \<and> (n < 2 \<or> n > 3) \<longrightarrow> new_grid ! r ! c = 0) \<and>
        (grid ! r ! c = 1 \<and> (n = 2 \<or> n = 3) \<longrightarrow> new_grid ! r ! c = 1) \<and>
        (grid ! r ! c = 0 \<and> n = 3 \<longrightarrow> new_grid ! r ! c = 1) \<and>
        (grid ! r ! c = 0 \<and> n \<noteq> 3 \<longrightarrow> new_grid ! r ! c = 0))"
proof -
  from assms have g: "shape_ok rows cols grid"
    by (simp add: grid_ok_def)
  from update_grid_cells[OF g, of wrap] obtain g' where
    run: "update_grid rows cols grid wrap = Inr g'" and ok: "shape_ok rows cols g'"
    and cells: "\<forall>r<rows. \<forall>c<cols. g' ! r ! c =
        next_state (grid ! r ! c) (count_alive_neighbors rows cols grid wrap (int r) (int c))"
    by blast
  have "\<exists>n. alive_neighbors rows cols grid wrap (int r) (int c) = Inr n \<and>
        (grid ! r ! c = 1 \<and> (n < 2 \<or> n > 3) \<longrightarrow> g' ! r ! c = 0) \<and>
        (grid ! r ! c = 1 \<and> (n = 2 \<or> n = 3) \<longrightarrow> g' ! r ! c = 1) \<and>
        (grid ! r ! c = 0 \<and> n = 3 \<longrightarrow> g' ! r ! c = 1) \<and>
        (grid ! r ! c = 0 \<and> n \<noteq> 3 \<longrightarrow> g' ! r ! c = 0)"
    if r: "r < rows" and c: "c < cols" for r c
  proof -
    from r c have pos: "wrap \<longrightarrow> 0 < rows \<and> 0 < cols" by auto
    from cells r c have "g' ! r ! c =
        next_state (grid ! r ! c) (count_alive_neighbors rows cols grid wrap (int r) (int c))"
      by simp
    with alive_neighbors_eq[OF g pos, of "int r" "int c"] show ?thesis
      by (auto simp: next_state_def written_value_def)
  qed
  with run ok show ?thesis by blast
qed

theorem update_grid_standard_rule_witness:
  "grid_ok 3 3 [[0, 1, 0], [0, 1, 0], [0, 1, 0]] \<and>
   (\<exists>new_grid. update_grid 3 3 [[0, 1, 0], [0, 1, 0], [0, 1, 0]] False = Inr new_grid \<and>
      shape_ok 3 3 new_grid \<and> new_grid ! 1 ! 0 = 1 \<and> new_grid ! 0 ! 1 = 0)"
proof -
  let ?g = "[[0, 1, 0], [0, 1, 0], [0, 1, 0 :: int]]"
  have ok: "grid_ok 3 3 ?g"
    by (simp add: grid_ok_def shape_ok_def binary_def)
  have born: "alive_neighbors 3 3 ?g False 1 0 = Inr 3"
    by (simp add: alive_neighbors_def neighbor_step_def getitem_def axis_index_def in_bounds_def)
  have dies: "alive_neighbors 3 3 ?g False 0 1 = Inr 1"
    by (simp add: alive_neighbors_def neighbor_step_def getitem_def axis_index_def in_bounds_def)
  from update_grid_standard_rule[OF ok, of False] obtain new_grid where
    run: "update_grid 3 3 ?g False = Inr new_grid" and shape: "shape_ok 3 3 new_grid"
    and cells: "\<And>r c. r < 3 \<Longrightarrow> c < 3 \<Longrightarrow> \<exists>n.
        alive_neighbors 3 3 ?g False (int r) (int c) = Inr n \<and>
        (?g ! r ! c = 1 \<and> (n < 2 \<or> n > 3) \<longrightarrow> new_grid ! r ! c = 0) \<and>
        (?g ! r ! c = 1 \<and> (n = 2 \<or> n = 3) \<longrightarrow> new_grid ! r ! c = 1) \<and>
        (?g ! r ! c = 0 \<and> n = 3 \<longrightarrow> new_grid ! r ! c = 1) \<and>
        (?g ! r ! c = 0 \<and> n \<noteq> 3 \<longrightarrow> new_grid ! r ! c = 0)"
    by blast
  from cells[of 1 0] born have one: "new_grid ! 1 ! 0 = 1" by simp
  from cells[of 0 1] dies have zero: "new_grid ! 0 ! 1 = 0" by simp
  from ok run shape one zero show ?thesis by simp
qed

text \<open>
  C2. In wrapped mode the count of the source is the sum of the cells at the eight
  coordinates of the Moore neighbourhood, each taken modulo \<open>rows\<close> and \<open>cols\<close>: there
  are always eight of them, all inside the grid. In the 3 by 3 grid whose only alive
  cell is \<open>(0, 0)\<close>, the count at \<open>(2, 2)\<close> is 1.
\<close>

theorem wrapped_neighbor_count:
  assumes "grid_ok rows cols grid" and "r < rows" and "c < cols"
  shows "alive_neighbors rows cols grid True (int r) (int c) =
           Inr (\<Sum>(r', c')\<leftarrow>wrapped_neighbors rows cols (int r) (int c). grid ! nat r' ! nat c') \<and>
         wrapped_neighbors rows cols (int r) (int c) =
           [((int r - 1) mod int rows, (int c - 1) mod int cols),
            ((int r - 1) mod int rows, int c mod int cols),
            ((int r - 1) mod int rows, (int c + 1) mod int cols),
            (int r mod int rows, (int c - 1) mod int cols),
            (int r mod int rows, (int c + 1) mod int cols),
            ((int r + 1) mod int rows, (int c - 1) mod int cols),
            ((int r + 1) mod int rows, int c mod int cols),
            ((int r + 1) mod int rows, (int c + 1) mod int cols)] \<and>
         length (wrapped_neighbors rows cols (int r) (int c)) = 8 \<and>
         list_all (\<lambda>(r', c'). in_bounds rows cols r' c')
           (wrapped_neighbors rows cols (int r) (int c)) \<and>
         alive_neighbors 3 3 [[1, 0, 0], [0, 0, 0], [0, 0, 0]] True 2 2 = Inr 1"
proof -
  from assms(1) have g: "shape_ok rows cols grid" by (simp add: grid_ok_def)
  from assms(2,3) have pos: "True \<longrightarrow> 0 < rows \<and> 0 < cols" by auto
  have count: "alive_neighbors rows cols grid True (int r) (int c) =
      Inr (\<Sum>(r', c')\<leftarrow>wrapped_neighbors rows cols (int r) (int c). grid ! nat r' ! nat c')"
    using alive_neighbors_eq[OF g pos, of "int r" "int c"]
    by (simp add: count_alive_neighbors_def)
  have coords: "wrapped_neighbors rows cols (int r) (int c) =
           [((int r - 1) mod int rows, (int c - 1) mod int cols),
            ((int r - 1) mod int rows, int c mod int cols),
            ((int r - 1) mod int rows, (int c + 1) mod int cols),
            (int r mod int rows, (int c - 1) mod int cols),
            (int r mod int rows, (int c + 1) mod int cols),
            ((int r + 1) mod int rows, (int c - 1) mod int cols),
            ((int r + 1) mod int rows, int c mod int cols),
            ((int r + 1) mod int rows, (int c + 1) mod int cols)]"
    by (simp add: wrapped_neighbors_def moore_def)
  have len: "length (wrapped_neighbors rows cols (int r) (int c)) = 8"
    by (simp add: wrapped_neighbors_def moore_def)
  have inside: "list_all (\<lambda>(r', c'). in_bounds rows cols r' c')
           (wrapped_neighbors rows cols (int r) (int c))"
    using pos by (simp add: wrapped_neighbors_def moore_def in_bounds_def)
  have example: "alive_neighbors 3 3 [[1, 0, 0], [0, 0, 0], [0, 0, 0]] True 2 2 = Inr 1"
    by (simp add: alive_neighbors_def neighbor_step_def getitem_def axis_index_def)
  from count coords len inside example show ?thesis by simp
qed

theorem wrapped_neighbor_count_witness:
  "grid_ok 3 3 [[1, 0, 0], [0, 0, 0], [0, 0, 0]] \<and> (2::nat) < 3 \<and>
   alive_neighbors 3 3 [[1, 0, 0], [0, 0, 0], [0, 0, 0]] True (int 2) (int 2) = Inr 1 \<and>
   wrapped_neighbors 3 3 (int 2) (int 2) =
     [(1, 1), (1, 2), (1, 0), (2, 1), (2, 0), (0, 1), (0, 2), (0, 0)]"
proof -
  have ok: "grid_ok 3 3 [[1, 0, 0], [0, 0, 0], [0, 0, 0]]"
    by (simp add: grid_ok_def shape_ok_def binary_def)
  have lt: "(2::nat) < 3" by simp
  from wrapped_neighbor_count[OF ok lt lt] ok show ?thesis
    by simp
qed

text \<open>
  C3. In bounded mode the count of the source is the sum of the cells at the neighbour
  coordinates that lie inside the grid, the others being left out. In the grid of the
  program (\<open>ROWS\<close> by \<open>COLS\<close>, 50 by 50), as in every grid with at least two rows and
  two columns, a corner cell has 3 such neighbours and an edge cell that is not a
  corner has 5. In the 3 by 3 grid with every cell alive, the count at \<open>(0, 0)\<close> is 3.
\<close>

theorem bounded_neighbor_count:
  assumes "grid_ok rows cols grid" and "r < rows" and "c < cols"
  shows "alive_neighbors rows cols grid False (int r) (int c) =
           Inr (\<Sum>(r', c')\<leftarrow>bounded_neighbors rows cols (int r) (int c). grid ! nat r' ! nat c') \<and>
         list_all (\<lambda>(r', c'). in_bounds rows cols r' c')
           (bounded_neighbors rows cols (int r) (int c)) \<and>
         (2 \<le> rows \<and> 2 \<le> cols \<and> (r = 0 \<or> Suc r = rows) \<and> (c = 0 \<or> Suc c = cols)
            \<longrightarrow> length (bounded_neighbors rows cols (int r) (int c)) = 3) \<and>
         (2 \<le> rows \<and> 2 \<le> cols \<and> ((r = 0 \<or> Suc r = rows) \<noteq> (c = 0 \<or> Suc c = cols))
            \<longrightarrow> length (bounded_neighbors rows cols (int r) (int c)) = 5) \<and>
         (\<forall>r'<ROWS. \<forall>c'<COLS.
            ((r' = 0 \<or> Suc r' = ROWS) \<and> (c' = 0 \<or> Suc c' = COLS)
               \<longrightarrow> length (bounded_neighbors ROWS COLS (int r') (int c')) = 3) \<and>
            (((r' = 0 \<or> Suc r' = ROWS) \<noteq> (c' = 0 \<or> Suc c' = COLS))
               \<longrightarrow> length (bounded_neighbors ROWS COLS (int r') (int c')) = 5)) \<and>
         alive_neighbors 3 3 [[1, 1, 1], [1, 1, 1], [1, 1, 1]] False 0 0 = Inr 3"
proof -
  from assms(1) have g: "shape_ok rows cols grid" by (simp add: grid_ok_def)
  have pos: "False \<longrightarrow> 0 < rows \<and> 0 < cols" by simp
  have count: "alive_neighbors rows cols grid False (int r) (int c) =
      Inr (\<Sum>(r', c')\<leftarrow>bounded_neighbors rows cols (int r) (int c). grid ! nat r' ! nat c')"
    using alive_neighbors_eq[OF g pos, of "int r" "int c"]
    by (simp add: count_alive_neighbors_def)
  have inside: "list_all (\<lambda>(r', c'). in_bounds rows cols r' c')
           (bounded_neighbors rows cols (int r) (int c))"
    by (simp add: bounded_neighbors_def list_all_iff case_prod_unfold)
  have corner: "length (bounded_neighbors m n (int i) (int j)) = 3"
    if "2 \<le> m" "2 \<le> n" "i = 0 \<or> Suc i = m" "j = 0 \<or> Suc j = n" for m n i j
    using that by (auto simp: bounded_neighbors_def moore_def in_bounds_def)
  have edge: "length (bounded_neighbors m n (int i) (int j)) = 5"
    if "2 \<le> m" "2 \<le> n" "i < m" "j < n" "(i = 0 \<or> Suc i = m) \<noteq> (j = 0 \<or> Suc j = n)"
    for m n i j
    using that by (auto simp: bounded_neighbors_def moore_def in_bounds_def)
  have size: "2 \<le> ROWS" "2 \<le> COLS"
    by (simp_all add: ROWS_def COLS_def)
  have example: "alive_neighbors 3 3 [[1, 1, 1], [1, 1, 1], [1, 1, 1]] False 0 0 = Inr 3"
    by (simp add: alive_neighbors_def neighbor_step_def getitem_def axis_index_def in_bounds_def)
  from count inside corner[of rows cols r c] edge[of rows cols r c] assms(2,3)
    corner[OF size] edge[OF size] example
  show ?thesis by blast
qed

theorem bounded_neighbor_count_witness:
  "grid_ok 3 3 [[1, 1, 1], [1, 1, 1], [1, 1, 1]] \<and>
   alive_neighbors 3 3 [[1, 1, 1], [1, 1, 1], [1, 1, 1]] False (int 0) (int 1) = Inr 5 \<and>
   bounded_neighbors 3 3 (int 0) (int 1) = [(0, 0), (0, 2), (1, 0), (1, 1), (1, 2)] \<and>
   length (bounded_neighbors 3 3 (int 0) (int 0)) = 3 \<and>
   length (bounded_neighbors ROWS COLS (int 49) (int 0)) = 3 \<and>
   length (bounded_neighbors ROWS COLS (int 0) (int 7)) = 5"
proof -
  have ok: "grid_ok 3 3 [[1, 1, 1], [1, 1, 1], [1, 1, 1]]"
    by (simp add: grid_ok_def shape_ok_def binary_def)
  have nbs: "bounded_neighbors 3 3 (int 0) (int 1) = [(0, 0), (0, 2), (1, 0), (1, 1), (1, 2)]"
    by (simp add: bounded_neighbors_def moore_def in_bounds_def)
  have lt: "(0::nat) < 3" "(1::nat) < 3" by simp_all
  note edge = bounded_neighbor_count[OF ok lt]
  note corner = bounded_neighbor_count[OF ok lt(1) lt(1)]
  from corner have prog: "\<And>r' c'. r' < ROWS \<Longrightarrow> c' < COLS \<Longrightarrow>
            ((r' = 0 \<or> Suc r' = ROWS) \<and> (c' = 0 \<or> Suc c' = COLS)
               \<longrightarrow> length (bounded_neighbors ROWS COLS (int r') (int c')) = 3) \<and>
            (((r' = 0 \<or> Suc r' = ROWS) \<noteq> (c' = 0 \<or> Suc c' = COLS))
               \<longrightarrow> length (bounded_neighbors ROWS COLS (int r') (int c')) = 5)"
    by blast
  have p1: "length (bounded_neighbors ROWS COLS (int 49) (int 0)) = 3"
    using prog[of 49 0] by (simp add: ROWS_def COLS_def)
  have p2: "length (bounded_neighbors ROWS COLS (int 0) (int 7)) = 5"
    using prog[of 0 7] by (simp add: ROWS_def COLS_def)
  from edge corner nbs ok p1 p2 show ?thesis
    by simp
qed

text \<open>
  C4. On every grid, when the cursor maps to a coordinate outside the grid (a negative
  row or column, or one past the last), \<^verbatim>\<open>toggle_cell\<close> raises nothing and leaves the
  grid as it was.
\<close>

theorem toggle_cell_out_of_bounds:
  assumes "cell_size \<noteq> 0"
    and "row = y div cell_size" and "col = x div cell_size"
    and "row < 0 \<or> int rows \<le> row \<or> col < 0 \<or> int cols \<le> col"
  shows "toggle_cell rows cols cell_size grid (x, y) draw_mode = Inr grid"
  using assms by (auto simp: toggle_cell_def in_bounds_def Let_def)

theorem toggle_cell_out_of_bounds_witness:
  "CELL_SIZE \<noteq> 0 \<and> (-1::int) = (-5) div CELL_SIZE \<and> (56::int) = 900 div CELL_SIZE \<and>
   toggle_cell ROWS COLS CELL_SIZE (replicate ROWS (replicate COLS 0)) (0, -5) True =
     Inr (replicate ROWS (replicate COLS 0)) \<and>
   toggle_cell ROWS COLS CELL_SIZE (replicate ROWS (replicate COLS 0)) (900, 10) True =
     Inr (replicate ROWS (replicate COLS 0))"
proof -
  have cs: "CELL_SIZE = 16"
    by (simp add: CELL_SIZE_def GRID_WIDTH_def COLS_def)
  have nz: "CELL_SIZE \<noteq> 0" and above: "(-1::int) = (-5) div CELL_SIZE"
    and left: "(0::int) = 0 div CELL_SIZE" and right: "(56::int) = 900 div CELL_SIZE"
    and top: "(0::int) = 10 div CELL_SIZE"
    by (simp_all add: cs)
  have out1: "(-1::int) < 0 \<or> int ROWS \<le> -1 \<or> (0::int) < 0 \<or> int COLS \<le> 0"
    by simp
  have out2: "(0::int) < 0 \<or> int ROWS \<le> 0 \<or> (56::int) < 0 \<or> int COLS \<le> 56"
    by (simp add: COLS_def)
  from toggle_cell_out_of_bounds[OF nz above left out1]
    toggle_cell_out_of_bounds[OF nz top right out2] nz above right
  show ?thesis by simp
qed

text \<open>
  C5. Two calls of \<^verbatim>\<open>update_grid\<close> on identical copies of a grid \<open>G\<close> (two arrays with the
  cells of \<open>G\<close>, wherever they are and whatever else the store holds) with the same
  flag return new arrays with the same cells, those of \<open>update_grid\<close> on \<open>G\<close>; a call
  changes no array that exists, its argument included, so that a second call on the
  same array returns the same cells again.
\<close>

theorem update_grid_identical_copies:
  assumes "grid_ok rows cols G"
    and "a1 < length s1" and "s1 ! a1 = G"
    and "a2 < length s2" and "s2 ! a2 = G"
  shows "\<exists>result. update_grid rows cols G w = Inr result \<and>
           update_grid_at rows cols s1 a1 w = Inr (s1 @ [result], length s1) \<and>
           update_grid_at rows cols s2 a2 w = Inr (s2 @ [result], length s2) \<and>
           update_grid_at rows cols (s1 @ [result]) a1 w =
             Inr (s1 @ [result, result], Suc (length s1))"
proof -
  from update_grid_grid_ok[OF assms(1), of w] obtain result where
    run: "update_grid rows cols G w = Inr result"
    by blast
  have first: "update_grid_at rows cols s1 a1 w = Inr (s1 @ [result], length s1)"
    using update_grid_at_eq[OF assms(2), of rows cols w] assms(3) run by simp
  have second: "update_grid_at rows cols s2 a2 w = Inr (s2 @ [result], length s2)"
    using update_grid_at_eq[OF assms(4), of rows cols w] assms(5) run by simp
  from assms(2) have again: "a1 < length (s1 @ [result])" by simp
  have third: "update_grid_at rows cols (s1 @ [result]) a1 w =
      Inr (s1 @ [result, result], Suc (length s1))"
    using update_grid_at_eq[OF again, of rows cols w] assms(2,3) run
    by (simp add: nth_append)
  from run first second third show ?thesis by blast
qed

theorem update_grid_identical_copies_witness:
  "grid_ok 3 3 [[0, 1, 0], [0, 1, 0], [0, 1, 0]] \<and>
   update_grid_at 3 3 [[[0, 1, 0], [0, 1, 0], [0, 1, 0]]] 0 False =
     Inr ([[[0, 1, 0], [0, 1, 0], [0, 1, 0]], [[0, 0, 0], [1, 1, 1], [0, 0, 0]]], 1) \<and>
   update_grid_at 3 3 [[[1, 1, 1], [1, 1, 1], [1, 1, 1]], [[0, 1, 0], [0, 1, 0], [0, 1, 0]]] 1 False =
     Inr ([[[1, 1, 1], [1, 1, 1], [1, 1, 1]], [[0, 1, 0], [0, 1, 0], [0, 1, 0]],
           [[0, 0, 0], [1, 1, 1], [0, 0, 0]]], 2)"
proof -
  let ?G = "[[0, 1, 0], [0, 1, 0], [0, 1, 0 :: int]]"
  let ?X = "[[1, 1, 1], [1, 1, 1], [1, 1, 1 :: int]]"
  have ok: "grid_ok 3 3 ?G"
    by (simp add: grid_ok_def shape_ok_def binary_def)
  have run: "update_grid 3 3 ?G False = Inr [[0, 0, 0], [1, 1, 1], [0, 0, 0]]"
    by code_simp
  have a1: "0 < length [?G]" "[?G] ! 0 = ?G" and a2: "1 < length [?X, ?G]" "[?X, ?G] ! 1 = ?G"
    by simp_all
  from update_grid_identical_copies[OF ok a1 a2, of False] run ok show ?thesis
    by auto
qed

text \<open>
  C7. When the cursor maps to a coordinate inside the grid, \<^verbatim>\<open>toggle_cell\<close> leaves the
  cell at that coordinate alive in draw mode and dead in erase mode, whatever the cell
  held before: it sets the state, it does not flip it.
\<close>

theorem toggle_cell_sets_state:
  assumes "shape_ok rows cols grid" and "cell_size \<noteq> 0"
    and "row = y div cell_size" and "col = x div cell_size"
    and "in_bounds rows cols row col"
  shows "\<exists>grid'. toggle_cell rows cols cell_size grid (x, y) draw_mode = Inr grid' \<and>
           grid' ! nat row ! nat col = (if draw_mode then 1 else 0)"
proof -
  from assms(3-5) have ib: "in_bounds rows cols (y div cell_size) (x div cell_size)" by simp
  then have "nat row < rows" "nat col < cols"
    using assms(3,4) by (auto simp: in_bounds_def)
  from nth_nth_update[OF assms(1) this this] toggle_cell_in_bounds[OF assms(1,2) ib, of draw_mode]
    assms(3,4)
  show ?thesis by simp
qed

theorem toggle_cell_sets_state_witness:
  "shape_ok 3 3 [[0, 1, 0], [0, 0, 0], [0, 0, 0]] \<and> in_bounds 3 3 0 1 \<and>
   (\<exists>grid'. toggle_cell 3 3 16 [[0, 1, 0], [0, 0, 0], [0, 0, 0]] (20, 7) True = Inr grid' \<and>
       grid' ! 0 ! 1 = 1) \<and>
   (\<exists>grid'. toggle_cell 3 3 16 [[0, 1, 0], [0, 0, 0], [0, 0, 0]] (20, 7) False = Inr grid' \<and>
       grid' ! 0 ! 1 = 0)"
proof -
  have ok: "shape_ok 3 3 [[0, 1, 0], [0, 0, 0], [0, 0, 0]]"
    by (simp add: shape_ok_def)
  have ib: "in_bounds 3 3 0 1"
    by (simp add: in_bounds_def)
  have cs: "(16::int) \<noteq> 0" and row: "(0::int) = 7 div 16" and col: "(1::int) = 20 div 16"
    by simp_all
  from toggle_cell_sets_state[OF ok cs row col ib, of True]
    toggle_cell_sets_state[OF ok cs row col ib, of False] ok ib
  show ?thesis by simp
qed

text \<open>
  C8. In every grid of at least 5 rows and 5 columns whose only alive cells are the
  horizontal triple \<open>(2,1), (2,2), (2,3)\<close>, one bounded \<^verbatim>\<open>update_grid\<close> gives exactly the
  vertical triple \<open>(1,2), (2,2), (3,2)\<close>, and one more gives the horizontal triple again.
\<close>

theorem blinker_oscillates:
  assumes "5 \<le> rows" and "5 \<le> cols"
  shows "update_grid rows cols (pattern rows cols [(2, 1), (2, 2), (2, 3)]) False =
           Inr (pattern rows cols [(1, 2), (2, 2), (3, 2)]) \<and>
         update_grid rows cols (pattern rows cols [(1, 2), (2, 2), (3, 2)]) False =
           Inr (pattern rows cols [(2, 1), (2, 2), (2, 3)])"
  using update_grid_pattern[OF blinker_horizontal_cells[OF assms]]
    update_grid_pattern[OF blinker_vertical_cells[OF assms]]
  by simp

theorem blinker_oscillates_witness:
  "(5::nat) \<le> 5 \<and>
   update_grid 5 5 [[0, 0, 0, 0, 0], [0, 0, 0, 0, 0], [0, 1, 1, 1, 0], [0, 0, 0, 0, 0], [0, 0, 0, 0, 0]] False =
     Inr [[0, 0, 0, 0, 0], [0, 0, 1, 0, 0], [0, 0, 1, 0, 0], [0, 0, 1, 0, 0], [0, 0, 0, 0, 0]] \<and>
   update_grid 5 5 [[0, 0, 0, 0, 0], [0, 0, 1, 0, 0], [0, 0, 1, 0, 0], [0, 0, 1, 0, 0], [0, 0, 0, 0, 0]] False =
     Inr [[0, 0, 0, 0, 0], [0, 0, 0, 0, 0], [0, 1, 1, 1, 0], [0, 0, 0, 0, 0], [0, 0, 0, 0, 0]]"
proof -
  have five: "(5::nat) \<le> 5" by simp
  have upt: "[0..<5] = [0, 1, 2, 3, 4]" by (simp add: upt_rec)
  have h: "pattern 5 5 [(2, 1), (2, 2), (2, 3)] =
      [[0, 0, 0, 0, 0], [0, 0, 0, 0, 0], [0, 1, 1, 1, 0], [0, 0, 0, 0, 0], [0, 0, 0, 0, 0]]"
    by (simp add: pattern_def upt)
  have v: "pattern 5 5 [(1, 2), (2, 2), (3, 2)] =
      [[0, 0, 0, 0, 0], [0, 0, 1, 0, 0], [0, 0, 1, 0, 0], [0, 0, 1, 0, 0], [0, 0, 0, 0, 0]]"
    by (simp add: pattern_def upt)
  from blinker_oscillates[OF five five] show ?thesis
    unfolding h v by simp
qed

text \<open>
  C9. If every cell of a grid is 0 or 1, then \<^verbatim>\<open>update_grid\<close> and \<^verbatim>\<open>toggle_cell\<close> return a
  grid of the same size in which every cell is 0 or 1.
\<close>

theorem cells_stay_binary:
  assumes "grid_ok rows cols grid"
  shows "(\<exists>grid'. update_grid rows cols grid wrap = Inr grid' \<and> grid_ok rows cols grid') \<and>
         (cell_size \<noteq> 0 \<longrightarrow>
            (\<exists>grid'. toggle_cell rows cols cell_size grid pos draw_mode = Inr grid' \<and>
                     grid_ok rows cols grid'))"
  using update_grid_grid_ok[OF assms] toggle_cell_grid_ok[OF assms] by blast

theorem cells_stay_binary_witness:
  "grid_ok 3 3 [[0, 1, 0], [0, 1, 0], [0, 1, 0]] \<and>
   (\<exists>grid'. update_grid 3 3 [[0, 1, 0], [0, 1, 0], [0, 1, 0]] True = Inr grid' \<and>
       grid_ok 3 3 grid') \<and>
   (\<exists>grid'. toggle_cell 3 3 16 [[0, 1, 0], [0, 1, 0], [0, 1, 0]] (20, 7) False = Inr grid' \<and>
       grid_ok 3 3 grid')"
proof -
  have ok: "grid_ok 3 3 [[0, 1, 0], [0, 1, 0], [0, 1, 0]]"
    by (simp add: grid_ok_def shape_ok_def binary_def)
  from cells_stay_binary[OF ok, of True 16 "(20, 7)" False] ok show ?thesis
    by simp
qed

text \<open>
  C10. When the cursor maps to a coordinate inside the grid, \<^verbatim>\<open>toggle_cell\<close> changes at
  most the cell at that coordinate: every other cell keeps its content, and the number
  of rows and the length of each row are unchanged.
\<close>

theorem toggle_cell_frame:
  assumes "shape_ok rows cols grid" and "cell_size \<noteq> 0"
    and "row = y div cell_size" and "col = x div cell_size"
    and "in_bounds rows cols row col"
  shows "\<exists>grid'. toggle_cell rows cols cell_size grid (x, y) draw_mode = Inr grid' \<and>
           length grid' = length grid \<and> map length grid' = map length grid \<and>
           shape_ok rows cols grid' \<and>
           (\<forall>r<rows. \<forall>c<cols. (int r, int c) \<noteq> (row, col) \<longrightarrow> grid' ! r ! c = grid ! r ! c)"
proof -
  let ?v = "if draw_mode then 1 else 0 :: int"
  let ?g' = "grid[nat row := (grid ! nat row)[nat col := ?v]]"
  from assms(3-5) have ib: "in_bounds rows cols (y div cell_size) (x div cell_size)" by simp
  from assms(5) have r: "nat row < rows" and c: "nat col < cols"
    and rt: "int (nat row) = row" "int (nat col) = col"
    by (auto simp: in_bounds_def)
  have run: "toggle_cell rows cols cell_size grid (x, y) draw_mode = Inr ?g'"
    using toggle_cell_in_bounds[OF assms(1,2) ib, of draw_mode] assms(3,4) by simp
  have ok: "shape_ok rows cols ?g'"
    by (rule shape_ok_update[OF assms(1)])
  from assms(1) r have inside: "nat row < length grid"
    by (simp add: shape_ok_iff)
  have lens: "map length ?g' = map length grid"
    using inside by (simp add: map_update list_update_same_conv)
  have frame: "\<forall>r'<rows. \<forall>c'<cols. (int r', int c') \<noteq> (row, col) \<longrightarrow> ?g' ! r' ! c' = grid ! r' ! c'"
  proof (intro allI impI)
    fix r' c' assume r': "r' < rows" and c': "c' < cols" and ne: "(int r', int c') \<noteq> (row, col)"
    from ne rt have "\<not> (r' = nat row \<and> c' = nat col)" by auto
    with nth_nth_update[OF assms(1) r c r' c', of ?v] show "?g' ! r' ! c' = grid ! r' ! c'"
      by simp
  qed
  from run ok lens frame show ?thesis by simp
qed

theorem toggle_cell_frame_witness:
  "shape_ok 3 3 [[0, 1, 0], [0, 1, 1], [0, 0, 0]] \<and> in_bounds 3 3 0 1 \<and>
   toggle_cell 3 3 16 [[0, 1, 0], [0, 1, 1], [0, 0, 0]] (20, 7) False =
     Inr [[0, 0, 0], [0, 1, 1], [0, 0, 0]] \<and>
   (\<exists>grid'. toggle_cell 3 3 16 [[0, 1, 0], [0, 1, 1], [0, 0, 0]] (20, 7) False = Inr grid' \<and>
       grid' ! 1 ! 1 = 1 \<and> grid' ! 1 ! 2 = 1 \<and> grid' ! 0 ! 0 = 0 \<and> length grid' = 3)"
proof -
  let ?g = "[[0, 1, 0], [0, 1, 1], [0, 0, 0 :: int]]"
  have ok: "shape_ok 3 3 ?g"
    by (simp add: shape_ok_def)
  have ib: "in_bounds 3 3 0 1"
    by (simp add: in_bounds_def)
  have cs: "(16::int) \<noteq> 0" and row: "(0::int) = 7 div 16" and col: "(1::int) = 20 div 16"
    by simp_all
  have run: "toggle_cell 3 3 16 ?g (20, 7) False = Inr [[0, 0, 0], [0, 1, 1], [0, 0, 0]]"
    by (simp add: toggle_cell_def in_bounds_def setitem_def axis_index_def)
  from toggle_cell_frame[OF ok cs row col ib, of False] obtain grid' where
    t: "toggle_cell 3 3 16 ?g (20, 7) False = Inr grid'" and len: "length grid' = length ?g"
    and cells: "\<And>r c. r < 3 \<Longrightarrow> c < 3 \<Longrightarrow> (int r, int c) \<noteq> (0, 1) \<Longrightarrow>
        grid' ! r ! c = ?g ! r ! c"
    by blast
  from cells[of 1 1] cells[of 1 2] cells[of 0 0] len
  have "grid' ! 1 ! 1 = 1 \<and> grid' ! 1 ! 2 = 1 \<and> grid' ! 0 ! 0 = 0 \<and> length grid' = 3"
    by simp
  with ok ib run t show ?thesis by blast
qed

end
